theory Spec2Isabelle
  imports Complex_Main "HOL-Library.Multiset"
begin

section \<open>Tensor entries\<close>

text \<open>
  The engine of \<^verbatim>\<open>deep_dream.py\<close> works on float32 tensors (\<^verbatim>\<open>.float()\<close>). An
  entry is a real number, meant to be a binary32 value, or one of the three special
  values. Every arithmetic operation rounds its exact result to binary32: to the nearest
  value with a significand of 24 bits, ties to the even one, with gradual underflow below
  \<open>2 powi - 126\<close> and overflow to infinity from \<open>2 powi 128\<close> on. The special values follow
  IEEE: an undefined quotient is NaN, NaN is absorbing, and infinities of opposite sign
  add up to NaN. Signed zeros are not modelled: every divisor the engine uses is a norm
  or a count, so a zero divisor is taken as positive zero.
\<close>

datatype fl = Fin real | PInf | NInf | NaN

text \<open>Rounding to the nearest integer, ties to even.\<close>

definition rne :: "real \<Rightarrow> int" where
  "rne x =
     (let f = \<lfloor>x\<rfloor>; d = x - of_int f in
      if d < 1 / 2 then f else if 1 / 2 < d then f + 1 else if even f then f else f + 1)"

text \<open>The binary exponent of a non-zero real: \<open>2 powi expo x \<le> \<bar>x\<bar> < 2 powi (expo x + 1)\<close>.\<close>

definition expo :: "real \<Rightarrow> int" where
  "expo x = \<lfloor>log 2 \<bar>x\<bar>\<rfloor>"

text \<open>
  Rounding to binary32: the spacing of the values around \<open>x\<close> is
  \<open>2 powi (expo x - 23)\<close>, and \<open>2 powi - 149\<close> in the subnormal range.
\<close>

definition round32 :: "real \<Rightarrow> fl" where
  "round32 x =
     (if x = 0 then Fin 0
      else
        (let u = 2 powi (max (expo x) (- 126) - 23);
             r = of_int (rne (x / u)) * u
         in if 2 powi 128 \<le> \<bar>r\<bar> then (if 0 < x then PInf else NInf) else Fin r))"

fun fl_add :: "fl \<Rightarrow> fl \<Rightarrow> fl" where
  "fl_add NaN y = NaN"
| "fl_add x NaN = NaN"
| "fl_add PInf NInf = NaN"
| "fl_add NInf PInf = NaN"
| "fl_add PInf y = PInf"
| "fl_add x PInf = PInf"
| "fl_add NInf y = NInf"
| "fl_add x NInf = NInf"
| "fl_add (Fin a) (Fin b) = round32 (a + b)"

fun fl_sq :: "fl \<Rightarrow> fl" where
  "fl_sq (Fin a) = round32 (a * a)"
| "fl_sq PInf = PInf"
| "fl_sq NInf = PInf"
| "fl_sq NaN = NaN"

fun fl_sqrt :: "fl \<Rightarrow> fl" where
  "fl_sqrt (Fin a) = (if a < 0 then NaN else round32 (sqrt a))"
| "fl_sqrt PInf = PInf"
| "fl_sqrt NInf = NaN"
| "fl_sqrt NaN = NaN"

fun fl_div :: "fl \<Rightarrow> fl \<Rightarrow> fl" where
  "fl_div NaN y = NaN"
| "fl_div x NaN = NaN"
| "fl_div (Fin a) (Fin b) =
     (if b \<noteq> 0 then round32 (a / b) else if a = 0 then NaN else if 0 < a then PInf else NInf)"
| "fl_div (Fin a) y = Fin 0"
| "fl_div PInf (Fin b) = (if 0 \<le> b then PInf else NInf)"
| "fl_div NInf (Fin b) = (if 0 \<le> b then NInf else PInf)"
| "fl_div x y = NaN"

fun isnan :: "fl \<Rightarrow> bool" where
  "isnan NaN = True"
| "isnan x = False"

text \<open>
  A sum runs over its entries in order, rounding after every addition. The sum of no
  entry is zero; the first entry is taken as it is, since adding a binary32 value to
  zero is exact.
\<close>

fun fl_sum :: "fl list \<Rightarrow> fl" where
  "fl_sum [] = Fin 0"
| "fl_sum (x # xs) = fold fl_add xs x"

type_synonym tensor1 = "fl list"
type_synonym tensor2 = "fl list list"

section \<open>Errors and tensor primitives\<close>

datatype error =
    ZeroDivisionError
  | NegativeDimension
  | IndexError
  | ShapeMismatch
  | UnboundLocalError
  | FileNotFoundError

text \<open>\<^verbatim>\<open>torch.zeros([n, m])\<close>: a negative size raises.\<close>

definition zeros :: "int \<Rightarrow> nat \<Rightarrow> error + tensor2" where
  "zeros n m = (if n < 0 then Inl NegativeDimension else Inr (replicate (nat n) (replicate m (Fin 0))))"

text \<open>\<^verbatim>\<open>xs[b:e]\<close> for non-negative bounds: clipped to the sequence, empty when \<open>e \<le> b\<close>.\<close>

definition slice :: "nat \<Rightarrow> nat \<Rightarrow> 'a list \<Rightarrow> 'a list" where
  "slice b e xs = take (e - b) (drop b xs)"

text \<open>
  Assignment into a tensor view copies with broadcasting: along each dimension the source
  has the size of the view or size one, anything else raises.
\<close>

definition expand_to :: "nat \<Rightarrow> 'a list \<Rightarrow> 'a list option" where
  "expand_to n xs =
     (if length xs = n then Some xs
      else if length xs = 1 then Some (replicate n (hd xs))
      else None)"

definition expand2 :: "nat \<Rightarrow> nat \<Rightarrow> 'a list list \<Rightarrow> 'a list list option" where
  "expand2 k d src =
     (case expand_to k src of
        None \<Rightarrow> None
      | Some rows \<Rightarrow> those (map (expand_to d) rows))"

text \<open>\<^verbatim>\<open>dst[i, :] = src\<close> for a row index \<open>i \<ge> 0\<close> and rows of width \<open>w\<close>.\<close>

definition set_row :: "nat \<Rightarrow> nat \<Rightarrow> tensor1 \<Rightarrow> tensor2 \<Rightarrow> error + tensor2" where
  "set_row i w src dst =
     (if i < length dst then
        (case expand_to w src of
           None \<Rightarrow> Inl ShapeMismatch
         | Some r \<Rightarrow> Inr (dst[i := r]))
      else Inl IndexError)"

text \<open>\<^verbatim>\<open>dst[a:b] = src\<close> for rows of width \<open>d\<close>; the bounds are clipped as a slice's are.\<close>

definition set_rows :: "nat \<Rightarrow> nat \<Rightarrow> nat \<Rightarrow> tensor2 \<Rightarrow> tensor2 \<Rightarrow> error + tensor2" where
  "set_rows a b d src dst =
     (let a' = min a (length dst); b' = max a' (min b (length dst)) in
      case expand2 (b' - a') d src of
        None \<Rightarrow> Inl ShapeMismatch
      | Some rows \<Rightarrow> Inr (take a' dst @ rows @ drop b' dst))"

section \<open>Configuration and engine\<close>

text \<open>
  The module reads the window length and shift (in samples) and the width of the last
  fully connected layer from its configuration file once, at import. They are sample
  and unit counts, modelled as naturals.
\<close>

record config =
  window_length :: nat
  window_shift :: nat
  vector_dim :: nat

text \<open>
  The fields of \<^verbatim>\<open>DeepDream\<close>. The two networks are external; in evaluation mode
  their composition maps each row of a batch to one row of the output, which is the
  field \<open>network\<close>.
\<close>

record engine =
  layer_name :: string
  verbose :: bool
  number_of_chunks :: int
  use_gpu :: bool
  network :: "tensor1 \<Rightarrow> tensor1"

text \<open>\<^verbatim>\<open>_load_model\<close> reads a checkpoint file; the files are a map from paths to networks.\<close>

definition load_model :: "(string \<rightharpoonup> (tensor1 \<Rightarrow> tensor1)) \<Rightarrow> string \<Rightarrow> error + (tensor1 \<Rightarrow> tensor1)" where
  "load_model files model_path =
     (case files model_path of None \<Rightarrow> Inl FileNotFoundError | Some n \<Rightarrow> Inr n)"

text \<open>\<^verbatim>\<open>DeepDream.__init__\<close>: stores its arguments and loads the model.\<close>

definition init ::
  "(string \<rightharpoonup> (tensor1 \<Rightarrow> tensor1)) \<Rightarrow> string \<Rightarrow> string \<Rightarrow> int \<Rightarrow> bool \<Rightarrow> bool \<Rightarrow> error + engine" where
  "init files layer model_path chunks gpu verb =
     (case load_model files model_path of
        Inl e \<Rightarrow> Inl e
      | Inr n \<Rightarrow>
          Inr \<lparr>layer_name = layer, verbose = verb, number_of_chunks = chunks,
               use_gpu = gpu, network = n\<rparr>)"

section \<open>Aggregation (line 198)\<close>

text \<open>\<^verbatim>\<open>t.norm(p=2, dim=1)\<close>: the L2 norm of every row.\<close>

definition norm2 :: "tensor1 \<Rightarrow> fl" where
  "norm2 row = fl_sqrt (fl_sum (map fl_sq row))"

definition row_norms :: "tensor2 \<Rightarrow> tensor1" where
  "row_norms t = map norm2 t"

text \<open>\<^verbatim>\<open>t / n.view(-1, 1)\<close>: row \<open>i\<close> of \<open>t\<close> divided by entry \<open>i\<close> of \<open>n\<close>.\<close>

definition div_rows :: "tensor2 \<Rightarrow> tensor1 \<Rightarrow> tensor2" where
  "div_rows t n = map2 (\<lambda>row c. map (\<lambda>x. fl_div x c) row) t n"

text \<open>
  \<^verbatim>\<open>torch.mean(t, dim=0)\<close> of a tensor of shape \<open>[length t, d]\<close>: the sum of every
  column, over the rows in order, divided by the number of rows; over no rows it is
  \<open>0 / 0\<close>, NaN.
\<close>

definition mean_dim0 :: "nat \<Rightarrow> tensor2 \<Rightarrow> tensor1" where
  "mean_dim0 d t =
     map (\<lambda>j. fl_div (fl_sum (map (\<lambda>row. row ! j) t)) (Fin (real (length t)))) [0..<d]"

definition aggregate :: "nat \<Rightarrow> tensor2 \<Rightarrow> tensor1" where
  "aggregate d t = mean_dim0 d (div_rows t (row_norms t))"

text \<open>\<^verbatim>\<open>torch.sum(torch.isnan(p))\<close>.\<close>

definition nan_sum :: "tensor1 \<Rightarrow> nat" where
  "nan_sum p = length (filter isnan p)"

section \<open>Processing one waveform (lines 152 to 204)\<close>

text \<open>Python's \<^verbatim>\<open>int(x)\<close> on a float truncates towards zero.\<close>

definition py_int :: "real \<Rightarrow> int" where
  "py_int x = (if 0 \<le> x then \<lfloor>x\<rfloor> else \<lceil>x\<rceil>)"

text \<open>
  Line 160, reached with a non-zero shift only. The quotient is taken exactly; the float
  quotient of the source truncates to the same integer for every length below \<open>2^53\<close>.
\<close>

definition number_of_frames :: "config \<Rightarrow> nat \<Rightarrow> int" where
  "number_of_frames cfg l =
     py_int (real_of_int (int l - int (window_length cfg)) / real (window_shift cfg) + 1)"

text \<open>
  The variables of the \<^verbatim>\<open>while\<close> loop, the batches handed to the network so far
  (\<open>calls\<close>), and the exception that stopped the loop, if any.
\<close>

record loop_state =
  beginning_of_sample :: nat
  end_of_sample :: nat
  frame_count :: nat
  signal_array :: tensor2
  vectors :: tensor2
  vectors_output_offset :: nat
  calls :: "tensor2 list"
  raised :: "error option"

text \<open>One run of the loop body, lines 174 to 190.\<close>

definition loop_body :: "config \<Rightarrow> engine \<Rightarrow> tensor1 \<Rightarrow> loop_state \<Rightarrow> loop_state" where
  "loop_body cfg eng signal st =
     (case set_row (frame_count st) (window_length cfg)
             (slice (beginning_of_sample st) (end_of_sample st) signal) (signal_array st) of
        Inl e \<Rightarrow> st\<lparr>raised := Some e\<rparr>
      | Inr sa \<Rightarrow>
          (let b = beginning_of_sample st + window_shift cfg;
               e = b + window_length cfg;
               fc = frame_count st + 1;
               st1 = st\<lparr>beginning_of_sample := b, end_of_sample := e, frame_count := fc,
                        signal_array := sa\<rparr>
           in
             if int fc = number_of_chunks eng then
               (let st2 = st1\<lparr>calls := calls st @ [sa]\<rparr> in
                case set_rows (vectors_output_offset st) (vectors_output_offset st + length sa)
                       (vector_dim cfg) (map (network eng) sa) (vectors st) of
                  Inl e \<Rightarrow> st2\<lparr>raised := Some e\<rparr>
                | Inr vs \<Rightarrow>
                    (case zeros (number_of_chunks eng) (window_length cfg) of
                       Inl e \<Rightarrow> st2\<lparr>vectors := vs, raised := Some e\<rparr>
                     | Inr z \<Rightarrow>
                         st2\<lparr>vectors := vs,
                             vectors_output_offset := vectors_output_offset st + length sa,
                             frame_count := 0, signal_array := z\<rparr>))
             else st1))"

text \<open>
  The loop of line 173. Line 160 has raised before the loop when the shift is zero, so
  the last conjunct of the test is true whenever the engine reaches the loop.
\<close>

function loop :: "config \<Rightarrow> engine \<Rightarrow> tensor1 \<Rightarrow> loop_state \<Rightarrow> loop_state" where
  "loop cfg eng signal st =
     (if raised st = None \<and> end_of_sample st < length signal \<and> 0 < window_shift cfg
      then loop cfg eng signal (loop_body cfg eng signal st)
      else st)"
  by pat_completeness auto

definition loop_measure :: "config \<times> engine \<times> tensor1 \<times> loop_state \<Rightarrow> nat" where
  "loop_measure = (\<lambda>(cfg, eng, signal, st).
     if raised st \<noteq> None then 0
     else if end_of_sample st = beginning_of_sample st + window_length cfg
       then 2 * (length signal - end_of_sample st) + 1
     else 2 * length signal + 2)"

termination loop
proof (relation "measure loop_measure")
  show "wf (measure loop_measure)" by simp
next
  fix cfg :: config and eng :: engine and signal :: tensor1 and st :: loop_state
  assume a: "raised st = None \<and> end_of_sample st < length signal \<and> 0 < window_shift cfg"
  show "((cfg, eng, signal, loop_body cfg eng signal st), (cfg, eng, signal, st))
          \<in> measure loop_measure"
    using a
    by (auto simp: loop_measure_def loop_body_def Let_def split: sum.splits)
qed

declare loop.simps [simp del]

text \<open>The result of one waveform: the batches handed to the network, and the averaged
  vector or the exception raised.\<close>

record waveform_run =
  adapter_calls :: "tensor2 list"
  outcome :: "error + tensor1"

definition process_waveform :: "config \<Rightarrow> engine \<Rightarrow> tensor1 \<Rightarrow> waveform_run" where
  "process_waveform cfg eng signal =
     (if window_shift cfg = 0 then \<lparr>adapter_calls = [], outcome = Inl ZeroDivisionError\<rparr>
      else
        (case zeros (number_of_chunks eng) (window_length cfg) of
           Inl e \<Rightarrow> \<lparr>adapter_calls = [], outcome = Inl e\<rparr>
         | Inr sa \<Rightarrow>
        (case zeros (number_of_frames cfg (length signal)) (vector_dim cfg) of
           Inl e \<Rightarrow> \<lparr>adapter_calls = [], outcome = Inl e\<rparr>
         | Inr vs \<Rightarrow>
          (let st = loop cfg eng signal
                      \<lparr>beginning_of_sample = 0, end_of_sample = window_length cfg,
                       frame_count = 0, signal_array = sa, vectors = vs,
                       vectors_output_offset = 0, calls = [], raised = None\<rparr>
           in
             case raised st of
               Some e \<Rightarrow> \<lparr>adapter_calls = calls st, outcome = Inl e\<rparr>
             | None \<Rightarrow>
                 if 0 < frame_count st then
                   (let batch = take (frame_count st) (signal_array st);
                        cs = calls st @ [batch]
                    in
                      case set_rows (vectors_output_offset st) (length (vectors st))
                             (vector_dim cfg) (map (network eng) batch) (vectors st) of
                        Inl e \<Rightarrow> \<lparr>adapter_calls = cs, outcome = Inl e\<rparr>
                      | Inr vs' \<Rightarrow>
                          \<lparr>adapter_calls = cs, outcome = Inr (aggregate (vector_dim cfg) vs')\<rparr>)
                 else
                   \<lparr>adapter_calls = calls st,
                    outcome = Inr (aggregate (vector_dim cfg) (vectors st))\<rparr>))))"

section \<open>transform (lines 148 to 211)\<close>

text \<open>
  The \<^verbatim>\<open>for\<close> loop rebinds \<^verbatim>\<open>sample_rate\<close>, \<^verbatim>\<open>predictions\<close> and
  \<^verbatim>\<open>nan_sum\<close> at every waveform; they are unbound before the first one. An exception
  leaves the call.
\<close>

fun for_loop ::
  "config \<Rightarrow> engine \<Rightarrow> (tensor1 \<times> 'r) list \<Rightarrow> ('r \<times> tensor1 \<times> nat) option
     \<Rightarrow> error + ('r \<times> tensor1 \<times> nat) option" where
  "for_loop cfg eng [] vars = Inr vars"
| "for_loop cfg eng ((signal, sample_rate) # x) vars =
     (case outcome (process_waveform cfg eng signal) of
        Inl e \<Rightarrow> Inl e
      | Inr predictions \<Rightarrow>
          for_loop cfg eng x (Some (sample_rate, predictions, nan_sum predictions)))"

text \<open>
  The test of \<^verbatim>\<open>nan_sum\<close> (lines 206 to 210) stands after the \<^verbatim>\<open>for\<close> loop, at its
  indentation: it runs once, on the variables the last waveform left. \<open>None\<close> is the
  invalid marker; the message printed with it is not modelled.
\<close>

definition transform ::
  "config \<Rightarrow> engine \<Rightarrow> (tensor1 \<times> 'r) list \<Rightarrow> error + (tensor1 option \<times> 'r) list" where
  "transform cfg eng x =
     (case for_loop cfg eng x None of
        Inl e \<Rightarrow> Inl e
      | Inr None \<Rightarrow> Inl UnboundLocalError
      | Inr (Some (sample_rate, predictions, n)) \<Rightarrow>
          Inr ([] @ [if 0 < n then (None, sample_rate) else (Some predictions, sample_rate)]))"

section \<open>Notions used in the statements\<close>

text \<open>
  Frame \<open>i\<close> of a waveform: the samples \<open>[i * shift, i * shift + length)\<close>.
\<close>

definition frame :: "config \<Rightarrow> tensor1 \<Rightarrow> nat \<Rightarrow> tensor1" where
  "frame cfg signal i = slice (i * window_shift cfg) (i * window_shift cfg + window_length cfg) signal"

text \<open>
  How often the test of line 173 succeeds on a waveform of \<open>l\<close> samples: the number of
  \<open>i\<close> with \<open>i * shift + length < l\<close> (lemma \<open>sliced_iff\<close>).
\<close>

definition sliced :: "config \<Rightarrow> nat \<Rightarrow> nat" where
  "sliced cfg l =
     (if window_length cfg < l then (l - window_length cfg - 1) div window_shift cfg + 1 else 0)"

text \<open>\<open>m\<close> frames in groups of \<open>c\<close>, the last group holding the remainder.\<close>

definition batches :: "config \<Rightarrow> tensor1 \<Rightarrow> nat \<Rightarrow> nat \<Rightarrow> tensor2 list" where
  "batches cfg signal c m =
     map (\<lambda>k. map (frame cfg signal) [k * c..<k * c + c]) [0..<m div c]
       @ (if 0 < m mod c then [map (frame cfg signal) [m div c * c..<m]] else [])"

text \<open>
  The loop state after \<open>k\<close> full batches and \<open>j\<close> further frames, and after \<open>i\<close>
  iterations, for a buffer of \<open>c\<close> rows and \<open>n\<close> rows of output.
\<close>

definition loop_at :: "config \<Rightarrow> engine \<Rightarrow> tensor1 \<Rightarrow> nat \<Rightarrow> nat \<Rightarrow> nat \<Rightarrow> nat \<Rightarrow> loop_state" where
  "loop_at cfg eng signal n c k j =
     \<lparr>beginning_of_sample = (k * c + j) * window_shift cfg,
      end_of_sample = (k * c + j) * window_shift cfg + window_length cfg,
      frame_count = j,
      signal_array = map (frame cfg signal) [k * c..<k * c + j]
                       @ replicate (c - j) (replicate (window_length cfg) (Fin 0)),
      vectors = map (\<lambda>i. network eng (frame cfg signal i)) [0..<k * c]
                  @ replicate (n - k * c) (replicate (vector_dim cfg) (Fin 0)),
      vectors_output_offset = k * c,
      calls = map (\<lambda>m. map (frame cfg signal) [m * c..<m * c + c]) [0..<k],
      raised = None\<rparr>"

definition loop_after :: "config \<Rightarrow> engine \<Rightarrow> tensor1 \<Rightarrow> nat \<Rightarrow> nat \<Rightarrow> nat \<Rightarrow> loop_state" where
  "loop_after cfg eng signal n c i = loop_at cfg eng signal n c (i div c) (i mod c)"

section \<open>The aggregation as the specification words it\<close>

text \<open>
  Each embedding is divided by its own L2 norm; the result is the element-wise mean of
  the normalised embeddings, a vector of \<open>d\<close> coordinates.
\<close>

definition l2_normalize :: "tensor1 \<Rightarrow> tensor1" where
  "l2_normalize e = map (\<lambda>x. fl_div x (norm2 e)) e"

definition vec_add :: "tensor1 \<Rightarrow> tensor1 \<Rightarrow> tensor1" where
  "vec_add u v = map2 fl_add u v"

definition elementwise_mean :: "nat \<Rightarrow> tensor1 list \<Rightarrow> tensor1" where
  "elementwise_mean d es =
     map (\<lambda>s. fl_div s (Fin (real (length es)))) (fold vec_add es (replicate d (Fin 0)))"

definition spec_aggregate :: "nat \<Rightarrow> tensor1 list \<Rightarrow> tensor1" where
  "spec_aggregate d es = elementwise_mean d (map l2_normalize es)"

section \<open>Example inputs\<close>

text \<open>
  A window of two samples shifted by two, embeddings of width one, batches of four, and
  a network whose embedding of a frame is the frame's first sample.
\<close>

definition first_sample :: "tensor1 \<Rightarrow> tensor1" where
  "first_sample f = [case f of [] \<Rightarrow> Fin 0 | x # xs \<Rightarrow> x]"

definition ex_cfg :: config where
  "ex_cfg = \<lparr>window_length = 2, window_shift = 2, vector_dim = 1\<rparr>"

definition ex_files :: "string \<rightharpoonup> (tensor1 \<Rightarrow> tensor1)" where
  "ex_files = [''model.pkl'' \<mapsto> first_sample]"

definition ex_eng :: engine where
  "ex_eng = \<lparr>layer_name = ''first'', verbose = True, number_of_chunks = 4, use_gpu = False,
             network = first_sample\<rparr>"

definition ones5 :: tensor1 where "ones5 = [Fin 1, Fin 1, Fin 1, Fin 1, Fin 1]"

definition minus5 :: tensor1 where "minus5 = [Fin (- 1), Fin (- 1), Fin (- 1), Fin (- 1), Fin (- 1)]"

definition zeros5 :: tensor1 where "zeros5 = [Fin 0, Fin 0, Fin 0, Fin 0, Fin 0]"

definition zeros6 :: tensor1 where "zeros6 = [Fin 0, Fin 0, Fin 0, Fin 0, Fin 0, Fin 0]"

text \<open>
  Windows of two samples shifted by two with embeddings of width two, batches of two,
  and the identity as network; a waveform of eight samples.
\<close>

definition pair_cfg :: config where
  "pair_cfg = \<lparr>window_length = 2, window_shift = 2, vector_dim = 2\<rparr>"

definition id_eng :: engine where
  "id_eng = \<lparr>layer_name = ''first'', verbose = True, number_of_chunks = 2, use_gpu = False,
             network = (\<lambda>f. f)\<rparr>"

definition sig8 :: tensor1 where
  "sig8 = [Fin 1, Fin 0, Fin 1, Fin 0, Fin 0, Fin 1, Fin 1, Fin 0]"

definition ones8 :: tensor1 where
  "ones8 = [Fin 1, Fin 1, Fin 1, Fin 1, Fin 1, Fin 1, Fin 1, Fin 1]"

section \<open>Rounding to binary32\<close>

text \<open>
  The value of \<open>round32\<close> at a real whose binary exponent \<open>e\<close> is known: the nearest
  multiple of \<open>2 powi (e - 23)\<close>, and of \<open>2 powi - 149\<close> in the subnormal range.
\<close>

lemma round32_0: "round32 0 = Fin 0"
  by (simp add: round32_def)

lemma expo_eq:
  assumes "2 powi e \<le> \<bar>x\<bar>" and "\<bar>x\<bar> < 2 powi (e + 1)"
  shows "expo x = e"
proof -
  have "0 < (2::real) powi e" by simp
  then have pos: "0 < \<bar>x\<bar>" using assms(1) by linarith
  have a: "(2::real) powr real_of_int e = 2 powi e"
    by (rule powr_real_of_int') simp_all
  have b: "(2::real) powr real_of_int (e + 1) = 2 powi (e + 1)"
    by (rule powr_real_of_int') simp_all
  have c: "real_of_int e + 1 = real_of_int (e + 1)" by simp
  have "2 powr real_of_int e \<le> \<bar>x\<bar> \<and> \<bar>x\<bar> < 2 powr (real_of_int e + 1)"
    using assms by (simp only: a b c)
  then have "\<lfloor>log 2 \<bar>x\<bar>\<rfloor> = e"
    using pos by (subst floor_log_eq_powr_iff) simp_all
  then show ?thesis by (simp only: expo_def)
qed

lemma round32_normal:
  assumes "2 powi e \<le> \<bar>x\<bar>" and "\<bar>x\<bar> < 2 powi (e + 1)" and "- 126 \<le> e" and "e \<le> 126"
      and "rne (x * 2 powi (23 - e)) = k" and "\<bar>k\<bar> \<le> 2 ^ 24"
  shows "round32 x = Fin (of_int k * 2 powi (e - 23))"
proof -
  have "0 < (2::real) powi e" by simp
  then have "0 < \<bar>x\<bar>" using assms(1) by linarith
  then have x: "x \<noteq> 0" by simp
  have k: "\<bar>real_of_int k\<bar> \<le> 2 ^ 24"
  proof -
    have "real_of_int \<bar>k\<bar> \<le> real_of_int (2 ^ 24)"
      using assms(6) by (simp only: of_int_le_iff)
    then show ?thesis by simp
  qed
  have e: "max (expo x) (- 126) = e" using expo_eq [OF assms(1,2)] assms(3) by simp
  have d: "x / 2 powi (e - 23) = x * 2 powi (23 - e)"
    by (simp add: power_int_diff field_simps)
  have "\<bar>of_int k * (2::real) powi (e - 23)\<bar> = \<bar>of_int k\<bar> * 2 powi (e - 23)"
    by (simp add: abs_mult)
  also have "\<dots> \<le> 2 ^ 24 * 2 powi (e - 23)"
    using k by (intro mult_right_mono) simp_all
  also have "\<dots> = 2 powi (e + 1)"
    by (simp add: power_int_add power_int_diff)
  also have "\<dots> < 2 powi 128"
    using assms(4) by (intro power_int_strict_increasing) simp_all
  finally have "\<not> 2 powi 128 \<le> \<bar>of_int k * (2::real) powi (e - 23)\<bar>" by simp
  then show ?thesis
    using x assms(5) by (simp add: round32_def e d Let_def)
qed

lemma round32_subnormal:
  assumes "x \<noteq> 0" and "\<bar>x\<bar> < 2 powi (- 126)" and "rne (x * 2 ^ 149) = k" and "\<bar>k\<bar> \<le> 2 ^ 23"
  shows "round32 x = Fin (of_int k * 2 powi (- 149))"
proof -
  have pos: "0 < \<bar>x\<bar>" using assms(1) by simp
  have "(2::real) powr real_of_int (- 126) = 2 powi (- 126)"
    by (rule powr_real_of_int') simp_all
  then have "\<bar>x\<bar> < 2 powr (- 126)" using assms(2) by simp
  then have "log 2 \<bar>x\<bar> < - 126"
    using pos by (subst log_less_iff) simp_all
  then have "expo x \<le> - 126"
    unfolding expo_def by (simp add: floor_le_iff)
  then have e: "max (expo x) (- 126) = - 126" by simp
  have k: "\<bar>real_of_int k\<bar> \<le> 2 ^ 23"
  proof -
    have "real_of_int \<bar>k\<bar> \<le> real_of_int (2 ^ 23)"
      using assms(4) by (simp only: of_int_le_iff)
    then show ?thesis by simp
  qed
  have "\<bar>of_int k * (2::real) powi (- 149)\<bar> = \<bar>of_int k\<bar> * 2 powi (- 149)"
    by (simp add: abs_mult)
  also have "\<dots> \<le> 2 ^ 23 * 2 powi (- 149)"
    using k by (intro mult_right_mono) simp_all
  also have "\<dots> < 2 powi 128" by simp
  finally have "\<not> 2 powi 128 \<le> \<bar>of_int k * (2::real) powi (- 149)\<bar>" by simp
  moreover have "x / 2 powi (- 149) = x * 2 ^ 149" by simp
  ultimately show ?thesis
    using assms(1,3) by (simp add: round32_def e Let_def)
qed

text \<open>Beyond the largest binary32 value the result is an infinity.\<close>

lemma rne_ge: "of_int m \<le> x \<Longrightarrow> m \<le> rne x"
proof -
  assume "of_int m \<le> x"
  then have "m \<le> \<lfloor>x\<rfloor>" by (simp add: le_floor_iff)
  then show ?thesis by (simp add: rne_def Let_def)
qed

lemma rne_le: "x \<le> of_int m \<Longrightarrow> rne x \<le> m"
proof -
  assume x: "x \<le> of_int m"
  show ?thesis
  proof (cases "x = of_int \<lfloor>x\<rfloor>")
    case True
    then have "\<lfloor>x\<rfloor> \<le> m" using x by linarith
    moreover have "rne x = \<lfloor>x\<rfloor>" using True by (simp add: rne_def Let_def)
    ultimately show ?thesis by simp
  next
    case False
    then have "of_int \<lfloor>x\<rfloor> < x" by linarith
    then have "of_int \<lfloor>x\<rfloor> < (of_int m :: real)" using x by linarith
    then have "\<lfloor>x\<rfloor> < m" by (simp only: of_int_less_iff)
    then show ?thesis by (simp add: rne_def Let_def)
  qed
qed

lemma round32_overflow:
  assumes "2 powi e \<le> \<bar>x\<bar>" and "\<bar>x\<bar> < 2 powi (e + 1)" and "128 \<le> e"
  shows "round32 x = (if 0 < x then PInf else NInf)"
proof -
  have p: "0 < (2::real) powi e" by simp
  then have "0 < \<bar>x\<bar>" using assms(1) by linarith
  then have x: "x \<noteq> 0" by simp
  have e: "max (expo x) (- 126) = e" using expo_eq [OF assms(1,2)] assms(3) by simp
  let ?u = "(2::real) powi (e - 23)"
  have u: "0 < ?u" by simp
  have ue: "2 ^ 23 * ?u = 2 powi e" by (simp add: power_int_diff)
  have "2 ^ 23 \<le> \<bar>x / ?u\<bar>"
    using assms(1) u ue by (simp add: abs_divide pos_le_divide_eq abs_of_pos)
  then have "2 ^ 23 \<le> \<bar>real_of_int (rne (x / ?u))\<bar>"
  proof (cases "0 \<le> x / ?u")
    case True
    assume "2 ^ 23 \<le> \<bar>x / ?u\<bar>"
    then have "real_of_int (2 ^ 23) \<le> x / ?u" using True by simp
    then have "2 ^ 23 \<le> rne (x / ?u)" by (rule rne_ge)
    then have "real_of_int (2 ^ 23) \<le> real_of_int (rne (x / ?u))" by (simp only: of_int_le_iff)
    then show ?thesis by simp
  next
    case False
    assume "2 ^ 23 \<le> \<bar>x / ?u\<bar>"
    then have "x / ?u \<le> real_of_int (- (2 ^ 23))" using False by simp
    then have "rne (x / ?u) \<le> - (2 ^ 23)" by (rule rne_le)
    then have "real_of_int (rne (x / ?u)) \<le> real_of_int (- (2 ^ 23))" by (simp only: of_int_le_iff)
    then show ?thesis by simp
  qed
  then have "2 ^ 23 * ?u \<le> \<bar>real_of_int (rne (x / ?u))\<bar> * ?u"
    using u by (intro mult_right_mono) simp_all
  then have "2 powi e \<le> \<bar>real_of_int (rne (x / ?u)) * ?u\<bar>"
    using u by (simp only: ue abs_mult abs_of_pos)
  moreover have "(2::real) powi 128 \<le> 2 powi e"
    using assms(3) by (intro power_int_increasing) simp_all
  ultimately have "2 powi 128 \<le> \<bar>real_of_int (rne (x / ?u)) * ?u\<bar>" by linarith
  then show ?thesis
    using x by (simp add: round32_def e Let_def)
qed



text \<open>Values of \<open>round32\<close> that the example runs need.\<close>

lemma round32_1: "round32 1 = Fin 1"
  by (rule round32_normal [where e = "0" and k = "8388608", THEN trans]) (simp_all add: rne_def Let_def)

lemma round32_2: "round32 2 = Fin 2"
  by (rule round32_normal [where e = "1" and k = "8388608", THEN trans]) (simp_all add: rne_def Let_def)

lemma round32_3: "round32 3 = Fin 3"
  by (rule round32_normal [where e = "1" and k = "12582912", THEN trans]) (simp_all add: rne_def Let_def)

lemma round32_minus_1: "round32 (- 1) = Fin (- 1)"
  by (rule round32_normal [where e = "0" and k = "- 8388608", THEN trans]) (simp_all add: rne_def Let_def)

lemma round32_minus_2: "round32 (- 2) = Fin (- 2)"
  by (rule round32_normal [where e = "1" and k = "- 8388608", THEN trans]) (simp_all add: rne_def Let_def)

lemma round32_half: "round32 (1 / 2) = Fin (1 / 2)"
  by (rule round32_normal [where e = "- 1" and k = "8388608", THEN trans]) (simp_all add: rne_def Let_def)

lemma round32_quarter: "round32 (1 / 4) = Fin (1 / 4)"
  by (rule round32_normal [where e = "- 2" and k = "8388608", THEN trans]) (simp_all add: rne_def Let_def)

lemma round32_three_quarters: "round32 (3 / 4) = Fin (3 / 4)"
  by (rule round32_normal [where e = "- 1" and k = "12582912", THEN trans]) (simp_all add: rne_def Let_def)

lemma round32_third: "round32 (1 / 3) = Fin (11184811 / 33554432)"
  by (rule round32_normal [where e = "- 2" and k = "11184811", THEN trans]) (simp_all add: rne_def Let_def)

lemma round32_two_thirds: "round32 (2 / 3) = Fin (11184811 / 16777216)"
  by (rule round32_normal [where e = "- 1" and k = "11184811", THEN trans]) (simp_all add: rne_def Let_def)

lemmas round32_values = round32_0 round32_1 round32_2 round32_3 round32_minus_1 round32_minus_2 round32_half round32_quarter round32_three_quarters round32_third round32_two_thirds

section \<open>Evaluation\<close>

lemmas run_simps = transform_def process_waveform_def zeros_def number_of_frames_def py_int_def
  loop.simps loop_body_def set_row_def set_rows_def expand_to_def expand2_def slice_def Let_def
  aggregate_def mean_dim0_def div_rows_def row_norms_def norm2_def nan_sum_def
  eval_nat_numeral upt_rec first_sample_def ex_cfg_def ex_eng_def round32_values

lemmas spec_simps = frame_def spec_aggregate_def elementwise_mean_def l2_normalize_def vec_add_def

section \<open>Tensor primitives\<close>

lemma length_frame:
  "i * window_shift cfg + window_length cfg \<le> length signal \<Longrightarrow>
   length (frame cfg signal i) = window_length cfg"
  by (simp add: frame_def slice_def)

lemma expand_to_same: "length xs = n \<Longrightarrow> expand_to n xs = Some xs"
  by (simp add: expand_to_def)

lemma those_map_Some: "(\<And>x. x \<in> set xs \<Longrightarrow> f x = Some x) \<Longrightarrow> those (map f xs) = Some xs"
  by (induction xs) simp_all

lemma expand2_same:
  "length src = k \<Longrightarrow> (\<And>r. r \<in> set src \<Longrightarrow> length r = d) \<Longrightarrow> expand2 k d src = Some src"
  by (simp add: expand2_def expand_to_same those_map_Some)

lemma set_row_append:
  "length src = w \<Longrightarrow> 0 < m \<Longrightarrow>
   set_row (length xs) w src (xs @ replicate m z) = Inr (xs @ [src] @ replicate (m - 1) z)"
  by (cases m) (simp_all add: set_row_def expand_to_same list_update_append)

lemma set_rows_middle:
  assumes "length src = c" "\<And>r. r \<in> set src \<Longrightarrow> length r = d" "length xs = a" "c \<le> m"
  shows "set_rows a (a + c) d src (xs @ replicate m z) = Inr (xs @ src @ replicate (m - c) z)"
proof -
  have "min a (length (xs @ replicate m z)) = a" using assms by simp
  moreover have "max a (min (a + c) (length (xs @ replicate m z))) = a + c" using assms by simp
  ultimately show ?thesis
    using assms by (simp add: set_rows_def Let_def expand2_same)
qed

lemma expand_to_mismatch: "length xs \<noteq> n \<Longrightarrow> length xs \<noteq> 1 \<Longrightarrow> expand_to n xs = None"
  by (simp add: expand_to_def)

lemma upt_split_at: "a \<le> m \<Longrightarrow> [0..<m] = [0..<a] @ [a..<m]"
  using upt_add_eq_append [of 0 a "m - a"] by simp

section \<open>Aggregation\<close>



lemma length_l2_normalize: "length (l2_normalize e) = length e"
  by (simp add: l2_normalize_def)

lemma aggregate_no_rows: "aggregate d [] = replicate d NaN"
  by (simp add: aggregate_def mean_dim0_def div_rows_def row_norms_def map_replicate_const)

lemma nan_sum_replicate: "nan_sum (replicate d NaN) = d"
  by (simp add: nan_sum_def)


text \<open>
  The square of a large entry overflows and the square of a small one underflows to
  zero. A row of small entries has norm zero, its normalised entries are infinite, and
  the test of \<open>isnan\<close> at line 204 does not flag the infinite mean.
\<close>

lemma fl_sq_overflow: "fl_sq (Fin (2 ^ 70)) = PInf"
proof -
  have "round32 (2 ^ 70 * 2 ^ 70) = (if (0::real) < 2 ^ 70 * 2 ^ 70 then PInf else NInf)"
    by (rule round32_overflow [where e = 140]) simp_all
  then show ?thesis by simp
qed

lemma fl_sq_underflow: "fl_sq (Fin (1 / 2 ^ 80)) = Fin 0"
proof -
  have "round32 (1 / 2 ^ 80 * (1 / 2 ^ 80)) = Fin (of_int 0 * 2 powi (- 149))"
    by (rule round32_subnormal) (simp_all add: rne_def Let_def)
  then show ?thesis by simp
qed

lemma infinite_mean_unflagged:
  "aggregate 1 [[Fin (1 / 2 ^ 80)]] = [PInf] \<and> nan_sum [PInf] = 0"
proof -
  have "norm2 [Fin (1 / 2 ^ 80)] = Fin 0"
    using fl_sq_underflow by (simp add: norm2_def round32_0)
  then show ?thesis
    by (simp add: aggregate_def mean_dim0_def div_rows_def row_norms_def nan_sum_def)
qed

section \<open>The loop\<close>

text \<open>One run of the body, when the buffer is not yet full and when it is.\<close>

lemma loop_body_partial:
  assumes "set_row (frame_count st) (window_length cfg)
             (slice (beginning_of_sample st) (end_of_sample st) signal) (signal_array st) = Inr sa"
      and "int (Suc (frame_count st)) \<noteq> number_of_chunks eng"
  shows "loop_body cfg eng signal st =
           st\<lparr>beginning_of_sample := beginning_of_sample st + window_shift cfg,
              end_of_sample := beginning_of_sample st + window_shift cfg + window_length cfg,
              frame_count := Suc (frame_count st), signal_array := sa\<rparr>"
  using assms by (simp add: loop_body_def Let_def)

lemma loop_body_full:
  assumes "set_row (frame_count st) (window_length cfg)
             (slice (beginning_of_sample st) (end_of_sample st) signal) (signal_array st) = Inr sa"
      and "int (Suc (frame_count st)) = number_of_chunks eng"
      and "set_rows (vectors_output_offset st) (vectors_output_offset st + length sa)
             (vector_dim cfg) (map (network eng) sa) (vectors st) = Inr vs"
  shows "loop_body cfg eng signal st =
           st\<lparr>beginning_of_sample := beginning_of_sample st + window_shift cfg,
              end_of_sample := beginning_of_sample st + window_shift cfg + window_length cfg,
              frame_count := 0,
              signal_array := replicate (Suc (frame_count st)) (replicate (window_length cfg) (Fin 0)),
              vectors := vs,
              vectors_output_offset := vectors_output_offset st + length sa,
              calls := calls st @ [sa]\<rparr>"
proof -
  have z: "zeros (number_of_chunks eng) (window_length cfg)
             = Inr (replicate (Suc (frame_count st)) (replicate (window_length cfg) (Fin 0)))"
    unfolding zeros_def assms(2) [symmetric] by (simp del: of_nat_Suc)
  show ?thesis
    using assms z by (simp add: loop_body_def Let_def)
qed

lemma set_row_loop_at:
  assumes "(k * c + j) * window_shift cfg + window_length cfg < length signal" and "j < c"
  shows "set_row (frame_count (loop_at cfg eng signal n c k j)) (window_length cfg)
           (slice (beginning_of_sample (loop_at cfg eng signal n c k j))
                  (end_of_sample (loop_at cfg eng signal n c k j)) signal)
           (signal_array (loop_at cfg eng signal n c k j))
         = Inr (map (frame cfg signal) [k * c..<k * c + Suc j]
                  @ replicate (c - Suc j) (replicate (window_length cfg) (Fin 0)))"
proof -
  have fr: "length (frame cfg signal (k * c + j)) = window_length cfg"
    using assms(1) by (simp add: length_frame)
  have "set_row (length (map (frame cfg signal) [k * c..<k * c + j])) (window_length cfg)
          (frame cfg signal (k * c + j))
          (map (frame cfg signal) [k * c..<k * c + j]
             @ replicate (c - j) (replicate (window_length cfg) (Fin 0)))
        = Inr (map (frame cfg signal) [k * c..<k * c + j] @ [frame cfg signal (k * c + j)]
             @ replicate (c - j - 1) (replicate (window_length cfg) (Fin 0)))"
    using fr assms(2) by (intro set_row_append) simp_all
  then show ?thesis
    by (simp add: loop_at_def frame_def)
qed

lemma loop_body_fill:
  assumes "(k * c + j) * window_shift cfg + window_length cfg < length signal"
      and "Suc j < c" and "number_of_chunks eng = int c"
  shows "loop_body cfg eng signal (loop_at cfg eng signal n c k j) = loop_at cfg eng signal n c k (Suc j)"
proof -
  have "int (Suc (frame_count (loop_at cfg eng signal n c k j))) \<noteq> number_of_chunks eng"
    using assms(2,3) by (simp add: loop_at_def)
  moreover have "j < c" using assms(2) by simp
  ultimately have "loop_body cfg eng signal (loop_at cfg eng signal n c k j) =
      (loop_at cfg eng signal n c k j)\<lparr>beginning_of_sample := beginning_of_sample (loop_at cfg eng signal n c k j) + window_shift cfg,
              end_of_sample := beginning_of_sample (loop_at cfg eng signal n c k j) + window_shift cfg + window_length cfg,
              frame_count := Suc (frame_count (loop_at cfg eng signal n c k j)),
              signal_array := map (frame cfg signal) [k * c..<k * c + Suc j]
                  @ replicate (c - Suc j) (replicate (window_length cfg) (Fin 0))\<rparr>"
    using assms(1) by (intro loop_body_partial set_row_loop_at)
  then show ?thesis
    by (simp add: loop_at_def algebra_simps)
qed

lemma loop_body_flush:
  assumes "(k * Suc j + j) * window_shift cfg + window_length cfg < length signal"
      and "number_of_chunks eng = int (Suc j)"
      and "Suc k * Suc j \<le> n"
      and "\<And>f. length (network eng f) = vector_dim cfg"
  shows "loop_body cfg eng signal (loop_at cfg eng signal n (Suc j) k j)
           = loop_at cfg eng signal n (Suc j) (Suc k) 0"
proof -
  let ?c = "Suc j"
  let ?st = "loop_at cfg eng signal n ?c k j"
  let ?sa = "map (frame cfg signal) [k * ?c..<k * ?c + ?c]"
  let ?vs = "map (\<lambda>i. network eng (frame cfg signal i)) [0..<k * ?c] @ map (network eng) ?sa
             @ replicate (n - k * ?c - ?c) (replicate (vector_dim cfg) (Fin 0))"
  have row: "set_row (frame_count ?st) (window_length cfg)
               (slice (beginning_of_sample ?st) (end_of_sample ?st) signal) (signal_array ?st) = Inr ?sa"
    using set_row_loop_at [OF assms(1), of eng n] by simp
  have full: "int (Suc (frame_count ?st)) = number_of_chunks eng"
    using assms(2) by (simp add: loop_at_def)
  have "set_rows (k * ?c) (k * ?c + ?c) (vector_dim cfg) (map (network eng) ?sa)
          (map (\<lambda>i. network eng (frame cfg signal i)) [0..<k * ?c]
             @ replicate (n - k * ?c) (replicate (vector_dim cfg) (Fin 0))) = Inr ?vs"
    using assms(3,4) by (intro set_rows_middle) auto
  then have sr: "set_rows (vectors_output_offset ?st) (vectors_output_offset ?st + length ?sa)
          (vector_dim cfg) (map (network eng) ?sa) (vectors ?st) = Inr ?vs"
    by (simp add: loop_at_def)
  have v: "map (\<lambda>i. network eng (frame cfg signal i)) [0..<k * ?c] @ map (network eng) ?sa
           = map (\<lambda>i. network eng (frame cfg signal i)) [0..<Suc k * ?c]"
  proof -
    have "[0..<Suc k * ?c] = [0..<k * ?c] @ [k * ?c..<k * ?c + ?c]"
      by (metis add.commute le_add1 mult_Suc upt_add_eq_append zero_le)
    then show ?thesis by (simp only: map_append map_map comp_def)
  qed
  have "loop_body cfg eng signal ?st =
           ?st\<lparr>beginning_of_sample := beginning_of_sample ?st + window_shift cfg,
              end_of_sample := beginning_of_sample ?st + window_shift cfg + window_length cfg,
              frame_count := 0,
              signal_array := replicate (Suc (frame_count ?st)) (replicate (window_length cfg) (Fin 0)),
              vectors := ?vs,
              vectors_output_offset := vectors_output_offset ?st + length ?sa,
              calls := calls ?st @ [?sa]\<rparr>"
    using row full sr by (rule loop_body_full)
  also have "\<dots> = loop_at cfg eng signal n ?c (Suc k) 0"
    unfolding loop_at_def using v by (simp add: algebra_simps)
  finally show ?thesis .
qed

text \<open>The loop runs \<open>sliced\<close> times and ends in the state \<open>loop_after\<close> describes.\<close>

lemma sliced_iff:
  assumes "0 < window_shift cfg"
  shows "i * window_shift cfg + window_length cfg < l \<longleftrightarrow> i < sliced cfg l"
proof (cases "window_length cfg < l")
  case False
  then show ?thesis by (simp add: sliced_def)
next
  case True
  have "i * window_shift cfg + window_length cfg < l
          \<longleftrightarrow> i * window_shift cfg \<le> l - window_length cfg - 1"
    using True by auto
  also have "\<dots> \<longleftrightarrow> i \<le> (l - window_length cfg - 1) div window_shift cfg"
    using assms by (simp add: less_eq_div_iff_mult_less_eq)
  finally show ?thesis using True by (auto simp: sliced_def)
qed

lemma loop_body_after:
  assumes "i * window_shift cfg + window_length cfg < length signal"
      and "0 < c" and "number_of_chunks eng = int c" and "Suc i \<le> n"
      and "\<And>f. length (network eng f) = vector_dim cfg"
  shows "loop_body cfg eng signal (loop_after cfg eng signal n c i) = loop_after cfg eng signal n c (Suc i)"
proof (cases "Suc (i mod c) = c")
  case True
  have i: "i div c * Suc (i mod c) + i mod c = i"
    using True by (metis div_mult_mod_eq)
  have "loop_body cfg eng signal (loop_at cfg eng signal n (Suc (i mod c)) (i div c) (i mod c))
          = loop_at cfg eng signal n (Suc (i mod c)) (Suc (i div c)) 0"
  proof (rule loop_body_flush)
    show "(i div c * Suc (i mod c) + i mod c) * window_shift cfg + window_length cfg < length signal"
      using assms(1) i by simp
    show "number_of_chunks eng = int (Suc (i mod c))" using assms(3) True by simp
    show "Suc (i div c) * Suc (i mod c) \<le> n" using assms(4) i by simp
    show "\<And>f. length (network eng f) = vector_dim cfg" by (rule assms(5))
  qed
  then show ?thesis
    using True by (simp add: loop_after_def div_Suc mod_Suc)
next
  case False
  then have lt: "Suc (i mod c) < c"
    using assms(2) by (metis Suc_lessI mod_less_divisor)
  have "(i div c * c + i mod c) * window_shift cfg + window_length cfg < length signal"
    using assms(1) by simp
  from loop_body_fill [OF this lt assms(3)] False
  show ?thesis
    by (simp add: loop_after_def div_Suc mod_Suc)
qed

lemma loop_run:
  assumes "0 < window_shift cfg" and "0 < c" and "number_of_chunks eng = int c"
      and "sliced cfg (length signal) \<le> n"
      and "\<And>f. length (network eng f) = vector_dim cfg"
      and "i \<le> sliced cfg (length signal)"
  shows "loop cfg eng signal (loop_after cfg eng signal n c i)
           = loop_after cfg eng signal n c (sliced cfg (length signal))"
  using assms(6)
proof (induction "sliced cfg (length signal) - i" arbitrary: i)
  case 0
  then have i: "i = sliced cfg (length signal)" by simp
  have "\<not> end_of_sample (loop_after cfg eng signal n c i) < length signal"
    using sliced_iff [OF assms(1), of i "length signal"] i
    by (simp add: loop_after_def loop_at_def)
  then show ?case
    using i by (subst loop.simps) simp
next
  case (Suc d)
  then have lt: "i < sliced cfg (length signal)" by simp
  then have e: "i * window_shift cfg + window_length cfg < length signal"
    using sliced_iff [OF assms(1)] by simp
  have c: "raised (loop_after cfg eng signal n c i) = None
           \<and> end_of_sample (loop_after cfg eng signal n c i) < length signal
           \<and> 0 < window_shift cfg"
    using e assms(1) by (simp add: loop_after_def loop_at_def)
  have b: "loop_body cfg eng signal (loop_after cfg eng signal n c i) = loop_after cfg eng signal n c (Suc i)"
    using e assms(2,3) _ assms(5)
    by (rule loop_body_after) (use lt assms(4) in simp)
  have "loop cfg eng signal (loop_after cfg eng signal n c i)
          = loop cfg eng signal (loop_after cfg eng signal n c (Suc i))"
    using c b by (subst loop.simps) simp
  also have "\<dots> = loop_after cfg eng signal n c (sliced cfg (length signal))"
    using Suc lt by (intro Suc.hyps(1)) simp_all
  finally show ?case .
qed

lemma loop_not_entered:
  "\<not> end_of_sample st < length signal \<Longrightarrow> loop cfg eng signal st = st"
  by (subst loop.simps) simp

lemma loop_without_rows:
  assumes "0 < window_shift cfg" and "window_length cfg < length signal"
  shows "loop cfg eng signal
           \<lparr>beginning_of_sample = 0, end_of_sample = window_length cfg, frame_count = 0,
            signal_array = [], vectors = vs, vectors_output_offset = 0, calls = [], raised = None\<rparr>
         = \<lparr>beginning_of_sample = 0, end_of_sample = window_length cfg, frame_count = 0,
            signal_array = [], vectors = vs, vectors_output_offset = 0, calls = [],
            raised = Some IndexError\<rparr>"
proof -
  let ?st = "\<lparr>beginning_of_sample = 0, end_of_sample = window_length cfg, frame_count = 0,
              signal_array = [], vectors = vs, vectors_output_offset = 0, calls = [],
              raised = None\<rparr>"
  have body: "loop_body cfg eng signal ?st = ?st\<lparr>raised := Some IndexError\<rparr>"
    by (simp add: loop_body_def set_row_def)
  have "loop cfg eng signal ?st = loop cfg eng signal (?st\<lparr>raised := Some IndexError\<rparr>)"
    using assms by (subst loop.simps) (simp add: body)
  also have "\<dots> = ?st\<lparr>raised := Some IndexError\<rparr>"
    by (subst loop.simps) simp
  finally show ?thesis by simp
qed

section \<open>One waveform\<close>

text \<open>
  The frame count of line 160, and the number of frames the loop slices: one less
  when the shift divides \<open>L - F\<close>, since the test of line 173 is strict.
\<close>

lemma number_of_frames_nat:
  assumes "0 < window_shift cfg" and "window_length cfg \<le> l"
  shows "number_of_frames cfg l = int ((l - window_length cfg) div window_shift cfg) + 1"
proof -
  have e: "real_of_int (int l - int (window_length cfg)) = real (l - window_length cfg)"
    using assms(2) by simp
  have p: "0 \<le> real (l - window_length cfg) / real (window_shift cfg) + 1"
    by simp
  have "number_of_frames cfg l = py_int (real (l - window_length cfg) / real (window_shift cfg) + 1)"
    by (simp only: number_of_frames_def e)
  also have "\<dots> = \<lfloor>real (l - window_length cfg) / real (window_shift cfg) + 1\<rfloor>"
    using p by (simp only: py_int_def if_True)
  also have "\<dots> = int ((l - window_length cfg) div window_shift cfg) + 1"
    by (simp add: floor_divide_of_nat_eq)
  finally show ?thesis .
qed

lemma py_int_below_one: "x < 1 \<Longrightarrow> py_int x \<le> 0"
  by (auto simp: py_int_def)

lemma number_of_frames_short:
  assumes "0 < window_shift cfg" and "l < window_length cfg"
  shows "number_of_frames cfg l \<le> 0"
proof -
  have "real_of_int (int l - int (window_length cfg)) / real (window_shift cfg) < 0"
    using assms by (simp add: divide_neg_pos)
  then show ?thesis
    unfolding number_of_frames_def by (intro py_int_below_one) simp
qed

lemma sliced_le_frames:
  assumes "0 < window_shift cfg" and "0 \<le> number_of_frames cfg l"
  shows "sliced cfg l \<le> nat (number_of_frames cfg l)"
proof (cases "window_length cfg < l")
  case False
  then show ?thesis by (simp add: sliced_def)
next
  case True
  have "(l - window_length cfg - 1) div window_shift cfg \<le> (l - window_length cfg) div window_shift cfg"
    by (rule div_le_mono) simp
  then show ?thesis
    using True number_of_frames_nat [OF assms(1), of l] by (simp add: sliced_def)
qed

lemma sliced_exact:
  assumes "0 < window_shift cfg" and "window_length cfg \<le> l"
  shows "int (sliced cfg l) =
           (if window_shift cfg dvd l - window_length cfg
            then number_of_frames cfg l - 1 else number_of_frames cfg l)"
proof (cases "window_length cfg < l")
  case False
  then have "l - window_length cfg = 0" using assms(2) by simp
  then show ?thesis
    using False number_of_frames_nat [OF assms] by (simp add: sliced_def)
next
  case True
  define x where "x = l - window_length cfg"
  have x: "0 < x" using True by (simp add: x_def)
  have "(x - 1) div window_shift cfg + 1 = (if window_shift cfg dvd x then x div window_shift cfg else x div window_shift cfg + 1)"
  proof (cases "window_shift cfg dvd x")
    case True
    then obtain k where k: "x = window_shift cfg * k" by (auto simp: dvd_def)
    then have k0: "0 < k" using x by (cases k) simp_all
    have "x - 1 = (window_shift cfg - 1) + (k - 1) * window_shift cfg"
      using k k0 assms(1) by (cases k) (simp_all add: algebra_simps)
    then have "(x - 1) div window_shift cfg = (window_shift cfg - 1) div window_shift cfg + (k - 1)"
      using assms(1) by (simp only: div_mult_self1 [OF less_imp_neq [OF assms(1), symmetric]])
    then show ?thesis using True k k0 assms(1) by simp
  next
    case False
    have "x mod window_shift cfg \<noteq> 0" using False by (simp add: dvd_eq_mod_eq_0)
    then have "(x - 1) div window_shift cfg = x div window_shift cfg"
      using assms(1) x
      by (metis False Suc_pred' div_Suc One_nat_def Suc_diff_1 dvd_def mod_eq_0_iff_dvd)
    then show ?thesis using False by simp
  qed
  then show ?thesis
    using True number_of_frames_nat [OF assms] by (simp add: sliced_def x_def)
qed

text \<open>The run of \<open>process_waveform\<close> for a positive shift and batch capacity.\<close>

lemma loop_after_0:
  "0 < c \<Longrightarrow> loop_after cfg eng signal n c 0 =
     \<lparr>beginning_of_sample = 0, end_of_sample = window_length cfg, frame_count = 0,
      signal_array = replicate c (replicate (window_length cfg) (Fin 0)),
      vectors = replicate n (replicate (vector_dim cfg) (Fin 0)),
      vectors_output_offset = 0, calls = [], raised = None\<rparr>"
  by (simp add: loop_after_def loop_at_def)

lemma loop_from_start:
  assumes "0 < window_shift cfg" and "0 < c" and "number_of_chunks eng = int c"
      and "sliced cfg (length signal) \<le> n"
      and "\<And>f. length (network eng f) = vector_dim cfg"
  shows "loop cfg eng signal
           \<lparr>beginning_of_sample = 0, end_of_sample = window_length cfg, frame_count = 0,
            signal_array = replicate c (replicate (window_length cfg) (Fin 0)),
            vectors = replicate n (replicate (vector_dim cfg) (Fin 0)),
            vectors_output_offset = 0, calls = [], raised = None\<rparr>
         = loop_after cfg eng signal n c (sliced cfg (length signal))"
  using loop_run [OF assms, of 0] assms(2) by (simp add: loop_after_0)

lemma adapter_calls_case:
  "adapter_calls (case x of Inl e \<Rightarrow> \<lparr>adapter_calls = cs, outcome = f e\<rparr>
                  | Inr v \<Rightarrow> \<lparr>adapter_calls = cs, outcome = g v\<rparr>) = cs"
  by (cases x) simp_all

lemma loop_after_fields:
  "raised (loop_after cfg eng signal n c m) = None"
  "frame_count (loop_after cfg eng signal n c m) = m mod c"
  "calls (loop_after cfg eng signal n c m)
     = map (\<lambda>k. map (frame cfg signal) [k * c..<k * c + c]) [0..<m div c]"
  "vectors_output_offset (loop_after cfg eng signal n c m) = m div c * c"
  "vectors (loop_after cfg eng signal n c m)
     = map (\<lambda>i. network eng (frame cfg signal i)) [0..<m div c * c]
         @ replicate (n - m div c * c) (replicate (vector_dim cfg) (Fin 0))"
  by (simp_all add: loop_after_def loop_at_def)

lemma loop_after_pending:
  "take (m mod c) (signal_array (loop_after cfg eng signal n c m))
     = map (frame cfg signal) [m div c * c..<m]"
proof -
  have "m div c * c + m mod c = m" by simp
  then show ?thesis
    by (simp add: loop_after_def loop_at_def minus_div_mult_eq_mod)
qed

lemma adapter_calls_negative:
  assumes "0 < window_shift cfg" and "0 < number_of_chunks eng"
      and "number_of_frames cfg (length signal) < 0"
  shows "adapter_calls (process_waveform cfg eng signal)
           = batches cfg signal (nat (number_of_chunks eng)) (sliced cfg (length signal))"
proof -
  have "\<not> window_length cfg < length signal"
    using number_of_frames_nat [OF assms(1), of "length signal"] assms(3) by auto
  then have "sliced cfg (length signal) = 0" by (simp add: sliced_def)
  then show ?thesis
    using assms by (simp add: process_waveform_def zeros_def batches_def)
qed

lemma process_waveform_run:
  assumes "0 < window_shift cfg" and "0 < c" and "number_of_chunks eng = int c"
      and "number_of_frames cfg (length signal) = int n"
      and "\<And>f. length (network eng f) = vector_dim cfg"
  shows "process_waveform cfg eng signal =
    (let st = loop_after cfg eng signal n c (sliced cfg (length signal)) in
     if 0 < frame_count st then
       (let batch = take (frame_count st) (signal_array st);
            cs = calls st @ [batch]
        in
          case set_rows (vectors_output_offset st) (length (vectors st))
                 (vector_dim cfg) (map (network eng) batch) (vectors st) of
            Inl e \<Rightarrow> \<lparr>adapter_calls = cs, outcome = Inl e\<rparr>
          | Inr vs' \<Rightarrow>
              \<lparr>adapter_calls = cs, outcome = Inr (aggregate (vector_dim cfg) vs')\<rparr>)
     else
       \<lparr>adapter_calls = calls st,
        outcome = Inr (aggregate (vector_dim cfg) (vectors st))\<rparr>)"
proof -
  have mn: "sliced cfg (length signal) \<le> n"
    using sliced_le_frames [OF assms(1), of "length signal"] assms(4) by simp
  have z1: "zeros (number_of_chunks eng) (window_length cfg)
              = Inr (replicate c (replicate (window_length cfg) (Fin 0)))"
    using assms(3) by (simp add: zeros_def)
  have z2: "zeros (number_of_frames cfg (length signal)) (vector_dim cfg)
              = Inr (replicate n (replicate (vector_dim cfg) (Fin 0)))"
    using assms(4) by (simp add: zeros_def)
  note run = loop_from_start [OF assms(1,2,3) mn assms(5)]
  have r: "raised (loop_after cfg eng signal n c (sliced cfg (length signal))) = None"
    by (rule loop_after_fields)
  show ?thesis
    using assms(1) r by (simp add: process_waveform_def z1 z2 run Let_def)
qed

lemma adapter_calls_process:
  assumes "0 < window_shift cfg" and "0 < number_of_chunks eng"
      and "\<And>f. length (network eng f) = vector_dim cfg"
  shows "adapter_calls (process_waveform cfg eng signal)
           = batches cfg signal (nat (number_of_chunks eng)) (sliced cfg (length signal))"
proof (cases "number_of_frames cfg (length signal) < 0")
  case True
  with assms(1,2) show ?thesis by (rule adapter_calls_negative)
next
  case False
  define c where "c = nat (number_of_chunks eng)"
  define n where "n = nat (number_of_frames cfg (length signal))"
  have c: "0 < c" "number_of_chunks eng = int c" using assms(2) by (simp_all add: c_def)
  have n: "number_of_frames cfg (length signal) = int n" using False by (simp add: n_def)
  show ?thesis
    unfolding process_waveform_run [OF assms(1) c n assms(3)] c_def [symmetric]
    by (simp add: Let_def loop_after_fields loop_after_pending adapter_calls_case batches_def)
qed

lemma concat_blocks:
  "concat (map (\<lambda>k. map f [k * c..<k * c + c]) [0..<q]) = map f [0..<q * c]"
proof (induction q)
  case 0
  show ?case by simp
next
  case (Suc q)
  have "[0..<q * c + c] = [0..<q * c] @ [q * c..<q * c + c]"
    by (rule upt_add_eq_append) simp
  moreover have "Suc q * c = q * c + c" by simp
  ultimately have "map f [0..<Suc q * c] = map f [0..<q * c] @ map f [q * c..<q * c + c]"
    by (simp only: map_append)
  then show ?case using Suc by simp
qed

lemma concat_batches: "concat (batches cfg signal c m) = map (frame cfg signal) [0..<m]"
proof -
  define q where "q = m div c"
  have le: "q * c \<le> m" by (simp add: q_def)
  have "[0..<q * c + (m - q * c)] = [0..<q * c] @ [q * c..<q * c + (m - q * c)]"
    by (rule upt_add_eq_append) simp
  then have sp: "[0..<m] = [0..<q * c] @ [q * c..<m]" using le by simp
  show ?thesis
  proof (cases "0 < m mod c")
    case True
    then have "concat (batches cfg signal c m)
                 = map (frame cfg signal) [0..<q * c] @ map (frame cfg signal) [q * c..<m]"
      by (simp add: batches_def concat_blocks q_def)
    then show ?thesis by (simp only: sp map_append)
  next
    case False
    then have "q * c = m" using div_mult_mod_eq [of m c] by (simp add: q_def)
    then show ?thesis using False by (simp add: batches_def concat_blocks flip: q_def)
  qed
qed

lemma map_length_batches:
  "map length (batches cfg signal c m)
     = replicate (m div c) c @ (if 0 < m mod c then [m mod c] else [])"
  by (simp add: batches_def comp_def map_replicate_const minus_div_mult_eq_mod)

lemma ceil_div:
  fixes c m :: nat
  assumes "0 < c"
  shows "(m + c - 1) div c = m div c + (if 0 < m mod c then 1 else 0)"
proof -
  define q r where "q = m div c" and "r = m mod c"
  have m: "m = q * c + r" and r: "r < c" using assms by (simp_all add: q_def r_def)
  have split: "\<And>x. (q * c + x) div c = q + x div c"
    using assms by (subst div_mult_self3) simp_all
  show ?thesis
  proof (cases "r = 0")
    case True
    have "m + c - 1 = q * c + (c - 1)" using m True assms by simp
    then have "(m + c - 1) div c = q + (c - 1) div c" by (simp only: split)
    also have "(c - 1) div c = 0" using assms by simp
    finally show ?thesis using True by (simp flip: q_def r_def)
  next
    case False
    have "m + c - 1 = q * c + (c + (r - 1))" using m False by simp
    then have "(m + c - 1) div c = q + (c + (r - 1)) div c" by (simp only: split)
    also have "(c + (r - 1)) div c = (r - 1) div c + 1" using assms by (simp add: div_add_self1)
    also have "(r - 1) div c = 0" using r by simp
    finally show ?thesis using False by (simp flip: q_def r_def)
  qed
qed

text \<open>
  The batches hold the frames the loop slices, in order and nothing else: full batches
  of the capacity, and a last one with the remainder. The number of frames sliced is
  the frame count of line 160, less one when the shift divides \<open>L - F\<close>.
\<close>

lemma batches_of_sliced_frames:
  assumes "0 < number_of_chunks eng" and "0 < window_shift cfg"
      and "\<forall>f. length (network eng f) = vector_dim cfg"
  shows "let cs = adapter_calls (process_waveform cfg eng signal);
             C = nat (number_of_chunks eng);
             N = length (concat cs)
         in concat cs = map (frame cfg signal) [0..<N]
          \<and> N = sliced cfg (length signal)
          \<and> (window_length cfg \<le> length signal \<longrightarrow>
                int N = (if window_shift cfg dvd length signal - window_length cfg
                         then number_of_frames cfg (length signal) - 1
                         else number_of_frames cfg (length signal)))
          \<and> length cs = (N + C - 1) div C
          \<and> (\<forall>k < N div C. length (cs ! k) = C)
          \<and> (N mod C \<noteq> 0 \<longrightarrow> length (last cs) = N mod C)
          \<and> (window_length cfg = 200 \<and> window_shift cfg = 80 \<and> number_of_chunks eng = 4
               \<and> length signal = 700 \<longrightarrow> map length cs = [4, 3])"
proof -
  define C where "C = nat (number_of_chunks eng)"
  define m where "m = sliced cfg (length signal)"
  define cs where "cs = adapter_calls (process_waveform cfg eng signal)"
  have C: "0 < C" using assms(1) by (simp add: C_def)
  have cs: "cs = batches cfg signal C m"
    unfolding cs_def C_def m_def using assms by (intro adapter_calls_process) simp_all
  have cc: "concat cs = map (frame cfg signal) [0..<m]"
    by (simp add: cs concat_batches)
  then have N: "length (concat cs) = m" by simp
  have ml: "map length cs = replicate (m div C) C @ (if 0 < m mod C then [m mod C] else [])"
    by (simp add: cs map_length_batches)
  have len: "length cs = (m + C - 1) div C"
  proof -
    have "length cs = length (map length cs)" by simp
    also have "\<dots> = m div C + (if 0 < m mod C then 1 else 0)" unfolding ml by simp
    also have "\<dots> = (m + C - 1) div C" using ceil_div [OF C, of m] by (simp only:)
    finally show ?thesis .
  qed
  have full: "\<forall>k < m div C. length (cs ! k) = C"
  proof (intro allI impI)
    fix k assume k: "k < m div C"
    then have "k < length cs" using arg_cong [OF ml, of length] by simp
    then have "length (cs ! k) = map length cs ! k" by simp
    also have "\<dots> = C" using k by (simp add: ml nth_append)
    finally show "length (cs ! k) = C" .
  qed
  have part: "m mod C \<noteq> 0 \<longrightarrow> length (last cs) = m mod C"
  proof
    assume r: "m mod C \<noteq> 0"
    then have "cs \<noteq> []" using arg_cong [OF ml, of length] by auto
    then have "length (last cs) = last (map length cs)" by (simp add: last_map)
    also have "\<dots> = m mod C" using r by (simp add: ml)
    finally show "length (last cs) = m mod C" .
  qed
  have cnt: "window_length cfg \<le> length signal \<longrightarrow>
                int m = (if window_shift cfg dvd length signal - window_length cfg
                         then number_of_frames cfg (length signal) - 1
                         else number_of_frames cfg (length signal))"
    unfolding m_def using sliced_exact [OF assms(2)] by blast
  have ex: "window_length cfg = 200 \<and> window_shift cfg = 80 \<and> number_of_chunks eng = 4
               \<and> length signal = 700 \<longrightarrow> map length cs = [4, 3]"
  proof
    assume a: "window_length cfg = 200 \<and> window_shift cfg = 80 \<and> number_of_chunks eng = 4
               \<and> length signal = 700"
    then have "m = 7" "C = 4" by (simp_all add: m_def sliced_def C_def)
    then show "map length cs = [4, 3]" by (simp add: ml)
  qed
  show ?thesis
    unfolding Let_def cs_def [symmetric] C_def [symmetric] N
    using cc len full part ex cnt m_def by blast
qed
lemma scenario_700_batches:
  "length (concat (adapter_calls (process_waveform
      \<lparr>window_length = 200, window_shift = 80, vector_dim = 1\<rparr> ex_eng (replicate 700 (Fin 0)))))
     = 7
   \<and> number_of_frames \<lparr>window_length = 200, window_shift = 80, vector_dim = 1\<rparr> 700 = 7
   \<and> map length (adapter_calls (process_waveform
      \<lparr>window_length = 200, window_shift = 80, vector_dim = 1\<rparr> ex_eng (replicate 700 (Fin 0))))
     = [4, 3]"
  using batches_of_sliced_frames
    [of ex_eng "\<lparr>window_length = 200, window_shift = 80, vector_dim = 1\<rparr>" "replicate 700 (Fin 0)"]
  by (simp add: Let_def ex_eng_def first_sample_def sliced_def)

text \<open>
  When the shift does not divide \<open>L - F\<close>, the result is the aggregation of the
  embeddings of all frames. When it does, the partial batch is one row short of the
  rows left in \<open>vectors\<close>: two or more embeddings do not fit, and line 194 raises.
\<close>

lemma process_waveform_exact:
  assumes "0 < window_shift cfg" and "0 < number_of_chunks eng"
      and "\<And>f. length (network eng f) = vector_dim cfg"
      and "window_length cfg < length signal"
      and "\<not> window_shift cfg dvd length signal - window_length cfg"
  shows "outcome (process_waveform cfg eng signal)
           = Inr (aggregate (vector_dim cfg)
                   (map (\<lambda>i. network eng (frame cfg signal i))
                      [0..<(length signal - window_length cfg) div window_shift cfg + 1]))"
proof -
  define c where "c = nat (number_of_chunks eng)"
  define m where "m = (length signal - window_length cfg) div window_shift cfg + 1"
  define q where "q = m div c"
  have c: "0 < c" "number_of_chunks eng = int c" using assms(2) by (simp_all add: c_def)
  have wl: "window_length cfg \<le> length signal" using assms(4) by simp
  have nf: "number_of_frames cfg (length signal) = int m"
    using number_of_frames_nat [OF assms(1) wl] by (simp add: m_def)
  have sl: "sliced cfg (length signal) = m"
    using sliced_exact [OF assms(1) wl] assms(5) nf by simp
  have qm: "q * c \<le> m" by (simp add: q_def)
  have all: "map (\<lambda>i. network eng (frame cfg signal i)) [0..<q * c]
               @ map (network eng) (map (frame cfg signal) [q * c..<m])
             = map (\<lambda>i. network eng (frame cfg signal i)) [0..<m]"
    by (simp only: upt_split_at [OF qm] map_append map_map comp_def)
  show ?thesis
  proof (cases "0 < m mod c")
    case True
    have "set_rows (q * c) (q * c + (m - q * c)) (vector_dim cfg)
            (map (network eng) (map (frame cfg signal) [q * c..<m]))
            (map (\<lambda>i. network eng (frame cfg signal i)) [0..<q * c]
               @ replicate (m - q * c) (replicate (vector_dim cfg) (Fin 0)))
          = Inr (map (\<lambda>i. network eng (frame cfg signal i)) [0..<q * c]
               @ map (network eng) (map (frame cfg signal) [q * c..<m])
               @ replicate (m - q * c - (m - q * c)) (replicate (vector_dim cfg) (Fin 0)))"
      using assms(3) by (intro set_rows_middle) auto
    then have "set_rows (q * c) m (vector_dim cfg)
            (map (network eng) (map (frame cfg signal) [q * c..<m]))
            (map (\<lambda>i. network eng (frame cfg signal i)) [0..<q * c]
               @ replicate (m - q * c) (replicate (vector_dim cfg) (Fin 0)))
          = Inr (map (\<lambda>i. network eng (frame cfg signal i)) [0..<m])"
      using qm all by simp
    then have "outcome (process_waveform cfg eng signal)
           = Inr (aggregate (vector_dim cfg) (map (\<lambda>i. network eng (frame cfg signal i)) [0..<m]))"
      using True qm
      by (simp add: process_waveform_run [OF assms(1) c nf assms(3)] sl Let_def
          loop_after_fields loop_after_pending flip: q_def)
    then show ?thesis by (simp only: m_def)
  next
    case False
    then have "q * c = m" using div_mult_mod_eq [of m c] by (simp add: q_def)
    then have "outcome (process_waveform cfg eng signal)
           = Inr (aggregate (vector_dim cfg) (map (\<lambda>i. network eng (frame cfg signal i)) [0..<m]))"
      using False
      by (simp add: process_waveform_run [OF assms(1) c nf assms(3)] sl Let_def
          loop_after_fields flip: q_def)
    then show ?thesis by (simp only: m_def)
  qed
qed

lemma process_waveform_mismatch:
  assumes "0 < window_shift cfg" and "0 < number_of_chunks eng"
      and "\<And>f. length (network eng f) = vector_dim cfg"
      and "window_length cfg \<le> length signal"
      and "window_shift cfg dvd length signal - window_length cfg"
      and "2 \<le> sliced cfg (length signal) mod nat (number_of_chunks eng)"
  shows "outcome (process_waveform cfg eng signal) = Inl ShapeMismatch"
proof -
  define c where "c = nat (number_of_chunks eng)"
  define m where "m = sliced cfg (length signal)"
  define q where "q = m div c"
  have c: "0 < c" "number_of_chunks eng = int c" using assms(2) by (simp_all add: c_def)
  have nf: "number_of_frames cfg (length signal) = int (Suc m)"
    using sliced_exact [OF assms(1,4)] assms(5) by (simp add: m_def)
  have j: "2 \<le> m mod c" using assms(6) by (simp add: c_def m_def)
  have qm: "q * c + m mod c = m" by (simp add: q_def)
  have "expand_to (Suc m - q * c) (map (network eng) (map (frame cfg signal) [q * c..<m])) = None"
    using j qm by (intro expand_to_mismatch) simp_all
  then have "set_rows (q * c) (Suc m) (vector_dim cfg)
            (map (network eng) (map (frame cfg signal) [q * c..<m]))
            (map (\<lambda>i. network eng (frame cfg signal i)) [0..<q * c]
               @ replicate (Suc m - q * c) (replicate (vector_dim cfg) (Fin 0)))
          = Inl ShapeMismatch"
    using qm by (simp add: set_rows_def Let_def expand2_def)
  then show ?thesis
    using j qm
    by (simp add: process_waveform_run [OF assms(1) c nf assms(3)] Let_def
        loop_after_fields loop_after_pending flip: q_def m_def)
qed

text \<open>A batch capacity that is not positive, and a waveform shorter than one window.\<close>

lemma negative_chunks_raise:
  assumes "number_of_chunks eng < 0" and "0 < window_shift cfg"
  shows "outcome (process_waveform cfg eng signal) = Inl NegativeDimension"
  using assms by (simp add: process_waveform_def zeros_def)

lemma zero_chunks_raise:
  assumes "number_of_chunks eng = 0" and "0 < window_shift cfg"
      and "window_length cfg < length signal"
  shows "outcome (process_waveform cfg eng signal) = Inl IndexError"
proof -
  have nf: "\<not> number_of_frames cfg (length signal) < 0"
    using number_of_frames_nat [OF assms(2), of "length signal"] assms(3) by simp
  show ?thesis
    using assms nf by (simp add: process_waveform_def zeros_def loop_without_rows)
qed

lemma short_waveform_outcome:
  assumes "0 < window_shift cfg" and "length signal < window_length cfg"
  shows "outcome (process_waveform cfg eng signal) = Inl NegativeDimension
       \<or> outcome (process_waveform cfg eng signal) = Inr (replicate (vector_dim cfg) NaN)"
proof (cases "number_of_chunks eng < 0 \<or> number_of_frames cfg (length signal) < 0")
  case True
  then show ?thesis using assms(1) by (auto simp: process_waveform_def zeros_def)
next
  case False
  then have nf: "number_of_frames cfg (length signal) = 0"
    using number_of_frames_short [OF assms] by simp
  have "outcome (process_waveform cfg eng signal) = Inr (aggregate (vector_dim cfg) [])"
    using assms False by (simp add: process_waveform_def zeros_def nf loop_not_entered)
  then show ?thesis by (simp add: aggregate_no_rows)
qed

section \<open>transform\<close>

text \<open>
  A call that returns, returns one pair, with the sample rate of the last waveform.
\<close>

lemma for_loop_last:
  "for_loop cfg eng x vars = Inr v \<Longrightarrow>
     (x = [] \<and> v = vars) \<or> (x \<noteq> [] \<and> (\<exists>p n. v = Some (snd (last x), p, n)))"
proof (induction x arbitrary: vars)
  case Nil
  then show ?case by simp
next
  case (Cons a x)
  obtain signal sr where a: "a = (signal, sr)" by (cases a)
  from Cons.prems obtain p where
    r: "for_loop cfg eng x (Some (sr, p, nan_sum p)) = Inr v"
    by (auto simp: a split: sum.splits)
  from Cons.IH [OF r] show ?case by (auto simp: a)
qed

lemma transform_one_pair:
  assumes "transform cfg eng x = Inr out"
  shows "x \<noteq> [] \<and> (\<exists>r. out = [(r, snd (last x))])"
proof -
  from assms obtain sr p n where
    v: "for_loop cfg eng x None = Inr (Some (sr, p, n))"
    and out: "out = [if 0 < n then (None, sr) else (Some p, sr)]"
    by (auto simp: transform_def split: sum.splits option.splits)
  from for_loop_last [OF v] have "x \<noteq> []" and "sr = snd (last x)" by auto
  then show ?thesis using out by auto
qed

lemma transform_first_raises:
  "outcome (process_waveform cfg eng signal) = Inl e \<Longrightarrow> transform cfg eng ((signal, sr) # x) = Inl e"
  by (simp add: transform_def)

lemma short_waveform_alone:
  assumes "0 < window_shift cfg" and "length signal < window_length cfg" and "0 < vector_dim cfg"
  shows "transform cfg eng [(signal, sr)] = Inl NegativeDimension
       \<or> transform cfg eng [(signal, sr)] = Inr [(None, sr)]"
  using short_waveform_outcome [OF assms(1,2), of eng] assms(3)
  by (auto simp: transform_def nan_sum_replicate)

section \<open>The claims\<close>

text \<open>
  C1. For every input sequence, \<open>transform\<close> should return one pair per waveform, in
  order, each with its own sample rate. On two waveforms of five samples (two frames
  each) the call returns a single pair, the one of the second waveform: the first
  waveform has no entry.
\<close>

theorem transform_two_waveforms_one_result:
  "transform ex_cfg ex_eng [(ones5, 16000 :: int), (minus5, 8000)]
     = Inr [(Some [Fin (- 1)], 8000)]"
  by (simp add: run_simps ones5_def minus5_def)

text \<open>
  C2. For a waveform of \<open>L\<close> samples with \<open>F \<le> L\<close> the engine should extract
  \<open>floor ((L - F) / S) + 1\<close> frames. On a waveform of exactly one window line 160 counts
  one frame, the loop hands no frame to the network, and the untouched zero row of the
  output makes the result invalid.
\<close>

theorem one_window_waveform_no_frame:
  "number_of_frames ex_cfg (length [Fin 1, Fin 1]) = 1
   \<and> adapter_calls (process_waveform ex_cfg ex_eng [Fin 1, Fin 1]) = []
   \<and> transform ex_cfg ex_eng [([Fin 1, Fin 1], 16000 :: int)] = Inr [(None, 16000)]"
  by (simp add: run_simps)

text \<open>
  C3. A waveform whose averaged embedding has a non-finite coordinate should get the
  invalid marker, and later waveforms should be processed as usual. The mean of the
  all-zero waveform is NaN; followed by a second waveform, the call returns the second
  waveform's vector only, and no marker for the first.
\<close>

theorem nan_waveform_before_another_unreported:
  "outcome (process_waveform ex_cfg ex_eng zeros5) = Inr [NaN]
   \<and> transform ex_cfg ex_eng [(zeros5, 16000 :: int), (ones5, 8000)]
       = Inr [(Some [Fin 1], 8000)]"
  by (simp add: run_simps ones5_def zeros5_def)

text \<open>
  C4. The utterance embedding of a waveform should be the element-wise mean of its
  frame embeddings, each divided by its own L2 norm. On a waveform of eight samples
  with windows of two shifted by two, batches of two and the identity as network, line
  160 counts four frames and the loop slices three; the one embedding of the partial
  batch is broadcast into the two rows left, and the result is the mean over the
  embeddings of frames 0, 1, 2 and 2 again: neither the mean over the three frames
  sliced nor the mean over the four frames of the waveform.
\<close>

theorem duplicated_embedding_in_mean:
  "map (\<lambda>i. network id_eng (frame pair_cfg sig8 i)) [0..<4]
     = [[Fin 1, Fin 0], [Fin 1, Fin 0], [Fin 0, Fin 1], [Fin 1, Fin 0]]
   \<and> spec_aggregate 2 [[Fin 1, Fin 0], [Fin 1, Fin 0], [Fin 0, Fin 1]]
       = [Fin (11184811 / 16777216), Fin (11184811 / 33554432)]
   \<and> spec_aggregate 2 [[Fin 1, Fin 0], [Fin 1, Fin 0], [Fin 0, Fin 1], [Fin 1, Fin 0]]
       = [Fin (3 / 4), Fin (1 / 4)]
   \<and> transform pair_cfg id_eng [(sig8, 16000 :: int)]
       = Inr [(Some [Fin (1 / 2), Fin (1 / 2)], 16000)]"
  by (simp add: run_simps spec_simps pair_cfg_def id_eng_def sig8_def)

text \<open>
  C5. A waveform of \<open>N\<close> frames should reach the network in \<open>ceil (N / C)\<close> batches, the
  full ones of \<open>C\<close> frames. On a waveform of eight samples with windows of two shifted
  by two, line 160 counts four frames; with capacity four the network should get one
  batch of four. The loop slices three frames, the buffer never fills, and the network
  gets one batch of three, which does not fit the four rows of line 194.
\<close>

theorem four_frames_batch_of_three:
  "number_of_frames ex_cfg (length ones8) = 4
   \<and> map length (adapter_calls (process_waveform ex_cfg ex_eng ones8)) = [3]
   \<and> transform ex_cfg ex_eng [(ones8, 16000 :: int)] = Inl ShapeMismatch"
  by (simp add: run_simps ones8_def)

text \<open>
  C6. A waveform shorter than one window should end in the invalid marker or in an
  exception. The mean of a one-sample waveform is NaN (the average of no frame), but
  followed by a second waveform, the call returns the second waveform's vector only:
  neither a marker nor an exception stands for the short one.
\<close>

theorem short_waveform_before_another_unreported:
  "outcome (process_waveform ex_cfg ex_eng [Fin 1]) = Inr [NaN]
   \<and> transform ex_cfg ex_eng [([Fin 1], 16000 :: int), (ones5, 8000)]
       = Inr [(Some [Fin 1], 8000)]"
  by (simp add: run_simps ones5_def)

text \<open>
  C7. A waveform with a frame embedding of norm zero should get the invalid marker, not
  a crash. On the all-zero waveform of six samples (one window and two shifts) line 160
  counts three frames, the loop slices two, and writing their two embeddings into the
  three rows of line 194 raises.
\<close>

theorem zero_waveform_raises:
  "transform ex_cfg ex_eng [(zeros6, 16000 :: int)] = Inl ShapeMismatch"
  by (simp add: run_simps zeros6_def)

text \<open>
  C8. A batch capacity that is not positive should fail in the constructor. The
  constructor accepts capacity zero, and the first call of \<open>transform\<close> on a waveform
  of two frames raises.
\<close>

theorem init_accepts_zero_chunks:
  "init ex_files ''first'' ''model.pkl'' 0 False True = Inr (ex_eng\<lparr>number_of_chunks := 0\<rparr>)
   \<and> transform ex_cfg (ex_eng\<lparr>number_of_chunks := 0\<rparr>) [(ones5, 16000 :: int)]
       = Inl IndexError"
  by (simp add: run_simps init_def load_model_def ex_files_def ones5_def)

text \<open>
  C8, as the code has it. The constructor checks nothing: when the checkpoint loads it
  succeeds and stores the capacity it was given. A capacity that is not positive shows
  in \<open>transform\<close>: a negative one raises at the first waveform, when the batch buffer
  is allocated; zero raises at the first frame written, for a first waveform longer than
  one window.
\<close>

theorem init_stores_number_of_chunks_unchecked:
  assumes "files model_path = Some n"
  shows "\<exists>eng. init files layer model_path chunks gpu verb = Inr eng
           \<and> number_of_chunks eng = chunks
           \<and> (chunks < 0 \<and> 0 < window_shift cfg
                \<longrightarrow> transform cfg eng ((signal, sr) # x) = Inl NegativeDimension)
           \<and> (chunks = 0 \<and> 0 < window_shift cfg \<and> window_length cfg < length signal
                \<longrightarrow> transform cfg eng ((signal, sr) # x) = Inl IndexError)"
proof -
  let ?eng = "\<lparr>layer_name = layer, verbose = verb, number_of_chunks = chunks,
               use_gpu = gpu, network = n\<rparr>"
  have "init files layer model_path chunks gpu verb = Inr ?eng"
    using assms by (simp add: init_def load_model_def)
  moreover have "number_of_chunks ?eng = chunks" by simp
  moreover have "chunks < 0 \<and> 0 < window_shift cfg
                \<longrightarrow> transform cfg ?eng ((signal, sr) # x) = Inl NegativeDimension"
    by (auto intro!: transform_first_raises negative_chunks_raise)
  moreover have "chunks = 0 \<and> 0 < window_shift cfg \<and> window_length cfg < length signal
                \<longrightarrow> transform cfg ?eng ((signal, sr) # x) = Inl IndexError"
    by (auto intro!: transform_first_raises zero_chunks_raise)
  ultimately show ?thesis by blast
qed

theorem init_stores_number_of_chunks_unchecked_witness:
  "(\<exists>eng. init ex_files ''first'' ''model.pkl'' (- 1) False True = Inr eng
      \<and> number_of_chunks eng = - 1
      \<and> transform ex_cfg eng [(ones5, 16000 :: int)] = Inl NegativeDimension)
   \<and> (\<exists>eng. init ex_files ''first'' ''model.pkl'' 0 False True = Inr eng
      \<and> number_of_chunks eng = 0
      \<and> transform ex_cfg eng [(ones5, 16000 :: int)] = Inl IndexError)"
  using init_stores_number_of_chunks_unchecked
    [of ex_files "''model.pkl''" first_sample "''first''" "- 1" False True ex_cfg ones5 16000 "[]"]
    init_stores_number_of_chunks_unchecked
    [of ex_files "''model.pkl''" first_sample "''first''" 0 False True ex_cfg ones5 16000 "[]"]
  by (simp add: ex_files_def ex_cfg_def ones5_def)




text \<open>
  C10. On the empty input \<open>transform\<close> returns no list: the test after the loop reads
  \<open>nan_sum\<close>, which no iteration has bound, and the call raises.
\<close>

theorem transform_empty_raises:
  "transform cfg eng [] = Inl UnboundLocalError"
  by (simp add: transform_def)

end
